theory Spec2Isabelle
  imports Complex_Main
begin

section \<open>JavaScript values used by the program\<close>

text \<open>
  Strings are \<^typ>\<open>string\<close>; the program only concatenates, slices and compares them.
  A thrown value is a record of the two properties the handlers read: the Google client
  sets \<open>status\<close>, the Firecrawl client sets \<open>statusCode\<close>; \<open>message\<close> is absent on a
  thrown value that is not an \<open>Error\<close>. A promise that rejects is \<open>Inl\<close> of the thrown
  value, one that resolves is \<open>Inr\<close> of the result.
\<close>

record js_error =
  status :: "int option"
  statusCode :: "int option"
  message :: "string option"

definition Error :: "string \<Rightarrow> js_error" where
  "Error msg = \<lparr>status = None, statusCode = None, message = Some msg\<rparr>"

text \<open>\<open>xs.slice(0, n)\<close>: a negative end counts from the end of the array.\<close>

definition slice0 :: "int \<Rightarrow> 'a list \<Rightarrow> 'a list" where
  "slice0 n xs = (if n < 0 then take (nat (int (length xs) + n)) xs else take (nat n) xs)"

text \<open>lodash \<open>compact\<close> on an array of possibly undefined strings: falsy entries go.\<close>

fun compact :: "string option list \<Rightarrow> string list" where
  "compact [] = []"
| "compact (None # xs) = compact xs"
| "compact (Some s # xs) = (if s = [] then compact xs else s # compact xs)"

text \<open>\<open>xs.join(sep)\<close>.\<close>

fun join :: "string \<Rightarrow> string list \<Rightarrow> string" where
  "join sep [] = []"
| "join sep [x] = x"
| "join sep (x # y # ys) = x @ sep @ join sep (y # ys)"

text \<open>
  \<open>[...new Set(xs)]\<close>: the set is filled front to back, an element already present
  (the same string) is skipped, and iteration is in insertion order.
\<close>

fun set_add_all :: "'a list \<Rightarrow> 'a list \<Rightarrow> 'a list" where
  "set_add_all seen [] = seen"
| "set_add_all seen (x # xs) =
     (if x \<in> set seen then set_add_all seen xs else set_add_all (seen @ [x]) xs)"

definition newSet :: "'a list \<Rightarrow> 'a list" where
  "newSet xs = set_add_all [] xs"

section \<open>ai/providers.ts\<close>

definition DEFAULT_MODEL :: string where
  "DEFAULT_MODEL = ''gemini-1.5-pro''"

definition MAX_RETRIES :: nat where
  "MAX_RETRIES = 5"

definition INITIAL_RETRY_DELAY :: real where
  "INITIAL_RETRY_DELAY = 3000"

definition MAX_RETRY_DELAY :: real where
  "MAX_RETRY_DELAY = 15000"

text \<open>
  \<open>delay(retryCount)\<close> sleeps for the returned number of milliseconds. The argument
  \<open>rand\<close> is the value \<open>Math.random()\<close> returned for this call.
\<close>

definition delay :: "real \<Rightarrow> nat \<Rightarrow> real" where
  "delay rand retryCount =
     (let exponentialDelay = min (INITIAL_RETRY_DELAY * 2 ^ retryCount) MAX_RETRY_DELAY;
          jitter = rand * 1000
      in exponentialDelay + jitter)"

datatype role = System | User | Assistant

record Message =
  role :: role
  content :: string
  ident :: string

record generationConfig =
  temperature :: real
  maxOutputTokens :: nat
  topK :: "nat option"
  topP :: "real option"
  candidateCount :: "nat option"

record ModelConfig =
  generationConfig :: generationConfig
  safetySettings :: "(string \<times> string) list"

record google_part =
  google_role :: role
  parts :: "string list"

definition convertToGoogleAIMessages :: "Message list \<Rightarrow> google_part list" where
  "convertToGoogleAIMessages messages =
     map (\<lambda>m. \<lparr>google_role = (if role m = System then User else role m),
                parts = [content m]\<rparr>) messages"

text \<open>
  What one attempt hands to the Google client: the arguments of \<open>getGenerativeModel\<close>
  and the text given to \<open>sendMessage\<close> on a chat started without history.
\<close>

record upstream_request =
  req_model :: string
  req_config :: ModelConfig
  req_text :: string

text \<open>
  The observable run of one request: the upstream requests issued in order, the
  sleeps made in order, and how the promise settles.
\<close>

record execution =
  sent :: "upstream_request list"
  slept :: "real list"
  outcome :: "js_error + string"

text \<open>
  The \<open>while (retryCount <= MAX_RETRIES)\<close> loop of \<open>makeModelRequest\<close>. The upstream
  service is a parameter: \<open>upstream k r\<close> is how the \<open>k\<close>-th \<open>sendMessage\<close> of this
  request (counted from 0) ends for request \<open>r\<close>; \<open>rnd k\<close> is what \<open>Math.random()\<close>
  returns in the sleep after \<open>retryCount\<close> became \<open>k\<close>.
\<close>

function retry_loop ::
  "(nat \<Rightarrow> upstream_request \<Rightarrow> js_error + string) \<Rightarrow> (nat \<Rightarrow> real) \<Rightarrow>
   upstream_request \<Rightarrow> nat \<Rightarrow> execution" where
  "retry_loop upstream rnd r retryCount =
     (if retryCount \<le> MAX_RETRIES then
        (case upstream retryCount r of
           Inr response \<Rightarrow> \<lparr>sent = [r], slept = [], outcome = Inr response\<rparr>
         | Inl error \<Rightarrow>
             if status error = Some 429 \<and> retryCount < MAX_RETRIES then
               (let rest = retry_loop upstream rnd r (retryCount + 1)
                in \<lparr>sent = r # sent rest,
                    slept = delay (rnd (retryCount + 1)) (retryCount + 1) # slept rest,
                    outcome = outcome rest\<rparr>)
             else \<lparr>sent = [r], slept = [], outcome = Inl error\<rparr>)
      else \<lparr>sent = [], slept = [], outcome = Inl (Error ''Max retries exceeded'')\<rparr>)"
  by pat_completeness auto
termination
  by (relation "measure (\<lambda>(upstream, rnd, r, retryCount). MAX_RETRIES - retryCount)") auto

text \<open>
  Reading \<open>messages[messages.length - 1].content\<close> on an empty array throws a
  \<open>TypeError\<close> before any request is made.
\<close>

definition makeModelRequest ::
  "(nat \<Rightarrow> upstream_request \<Rightarrow> js_error + string) \<Rightarrow> (nat \<Rightarrow> real) \<Rightarrow>
   Message list \<Rightarrow> ModelConfig \<Rightarrow> execution" where
  "makeModelRequest upstream rnd messages config =
     (if messages = [] then
        \<lparr>sent = [], slept = [],
         outcome = Inl (Error ''Cannot read properties of undefined (reading 'content')'')\<rparr>
      else retry_loop upstream rnd
             \<lparr>req_model = DEFAULT_MODEL, req_config = config,
              req_text = content (last messages)\<rparr> 0)"

text \<open>
  \<open>handleGoogleAIError(error, retryCount = 0)\<close> never returns: after an optional sleep it
  rethrows the error it was given. The result is the sleeps made and the value thrown.
\<close>

definition handleGoogleAIError :: "(nat \<Rightarrow> real) \<Rightarrow> js_error \<Rightarrow> nat \<Rightarrow> real list \<times> js_error" where
  "handleGoogleAIError rnd error retryCount =
     (if status error = Some 429 \<and> retryCount < MAX_RETRIES
      then ([delay (rnd retryCount) retryCount], error)
      else ([], error))"

definition baseConfig :: ModelConfig where
  "baseConfig =
     \<lparr>generationConfig =
        \<lparr>temperature = 3 / 10, maxOutputTokens = 2048, topK = Some 40,
         topP = Some (95 / 100), candidateCount = Some 1\<rparr>,
      safetySettings = [(''HARM_CATEGORY_HARASSMENT'', ''BLOCK_MEDIUM_AND_ABOVE'')]\<rparr>"

definition o3MiniConfig :: ModelConfig where
  "o3MiniConfig =
     baseConfig\<lparr>generationConfig :=
       (generationConfig baseConfig)\<lparr>temperature := 3 / 10, maxOutputTokens := 2048\<rparr>\<rparr>"

definition rethrow :: "(nat \<Rightarrow> real) \<Rightarrow> execution \<Rightarrow> js_error \<Rightarrow> execution" where
  "rethrow rnd run error =
     (case handleGoogleAIError rnd error 0 of
        (sleeps, thrown) \<Rightarrow> run\<lparr>slept := slept run @ sleeps, outcome := Inl thrown\<rparr>)"

definition o3MiniModel ::
  "(nat \<Rightarrow> upstream_request \<Rightarrow> js_error + string) \<Rightarrow> (nat \<Rightarrow> real) \<Rightarrow>
   Message list \<Rightarrow> execution" where
  "o3MiniModel upstream rnd messages =
     (let run = makeModelRequest upstream rnd messages o3MiniConfig
      in case outcome run of
           Inr response \<Rightarrow>
             if response = []
             then rethrow rnd run (Error ''Empty or invalid response from Google AI'')
             else run
         | Inl error \<Rightarrow> rethrow rnd run error)"

definition MinChunkSize :: int where
  "MinChunkSize = 2000"

definition MaxContextSize :: int where
  "MaxContextSize = 2000000"

text \<open>
  \<open>trimPrompt\<close>. The token encoder and the text splitter are parameters: \<open>encode\<close> is
  the number of tokens the \<open>o200k_base\<close> encoder produces for a text, and \<open>splitText\<close>
  gives the chunks \<open>RecursiveCharacterTextSplitter\<close> (module \<open>ai/text-splitter\<close>) returns
  for a chunk size and a text, its overlap being fixed at 200. The function calls
  itself on whatever the splitter returned, so for an arbitrary splitter it need not
  return: not returning is \<open>None\<close>.
\<close>

partial_function (option) trimPrompt ::
  "(string \<Rightarrow> nat) \<Rightarrow> (nat \<Rightarrow> string \<Rightarrow> string list) \<Rightarrow> string \<Rightarrow> int \<Rightarrow> string option" where
  "trimPrompt encode splitText prompt contextSize =
     (if prompt = [] then Some []
      else if int (encode prompt) \<le> contextSize then Some prompt
      else
        let overflowTokens = int (encode prompt) - contextSize;
            chunkSize = int (length prompt) - overflowTokens * 3
        in if chunkSize < MinChunkSize then Some (take (nat MinChunkSize) prompt)
           else
             let trimmedPrompt =
                   (case splitText (nat chunkSize) prompt of [] \<Rightarrow> [] | c # cs \<Rightarrow> c)
             in if length trimmedPrompt = length prompt
                then trimPrompt encode splitText (take (nat chunkSize) prompt) contextSize
                else trimPrompt encode splitText trimmedPrompt contextSize)"

text \<open>
  The property of the splitter under which \<open>trimPrompt\<close> returns: its first chunk is
  never longer than the text it was cut from.
\<close>

definition first_chunk_no_longer :: "(nat \<Rightarrow> string \<Rightarrow> string list) \<Rightarrow> bool" where
  "first_chunk_no_longer splitText =
     (\<forall>n s. case splitText n s of [] \<Rightarrow> True | c # cs \<Rightarrow> length c \<le> length s)"

section \<open>deep-research.ts\<close>

record ResearchResult =
  learnings :: "string list"
  visitedUrls :: "string list"

record SerpQuery =
  query :: string
  researchGoal :: string

text \<open>The field \<open>learnings\<close> of \<open>ProcessResult\<close> is named \<open>newLearnings\<close> here.\<close>

record ProcessResult =
  newLearnings :: "string list"
  followUpQuestions :: "string list"

record search_item =
  url :: "string option"
  markdown :: "string option"

record SearchResponse =
  data :: "search_item list"

text \<open>
  The three prompts are fixed templates; a prompt is represented by the values its
  template interpolates, in the order they appear.
\<close>

datatype prompt =
    SerpPrompt string "string list" int
  | ProcessPrompt string "string list" int int
  | ReportPrompt string string

text \<open>
  The collaborators of the orchestrator are parameters, collected in a record. A call
  site is the position of the call in the tree of recursive calls: the root call of
  \<open>deepResearch\<close> has site \<open>[]\<close>, and the branch for the \<open>i\<close>-th planned query of the
  call at site \<open>p\<close>, as well as the recursive call made in that branch, has site
  \<open>p @ [i]\<close>. Every collaborator is taken to settle (return or throw).
  \<^item> \<open>model_reply w p pr\<close>: how \<open>o3MiniModel(formatMessages(systemPrompt(), pr))\<close>
    settles when called at site \<open>p\<close>;
  \<^item> \<open>search w p q\<close>: how \<open>firecrawl.search(q, ...)\<close> settles at site \<open>p\<close>;
  \<^item> \<open>parse_queries w c\<close>: the \<open>queries\<close> property of
    \<open>JSON.parse(cleanJsonResponse(c))\<close>, \<open>None\<close> when parsing or reading
    \<open>queries.length\<close> throws; \<open>parse_result\<close> likewise for the digest reply;
  \<^item> \<open>parse_report w c\<close>: \<open>None\<close> when \<open>JSON.parse(cleanJsonResponse(c))\<close> or the
    property access throws, \<open>Some None\<close> when the parsed value has no
    \<open>reportMarkdown\<close>, \<open>Some (Some R)\<close> when it has the string \<open>R\<close>;
  \<^item> \<open>trim_prompt w\<close>: \<open>trimPrompt\<close> with the encoder and the splitter in place;
  \<^item> \<open>trim w\<close>: \<open>String.prototype.trim\<close>, which strips the white space and line
    terminators of Unicode from both ends of a text.
\<close>

record world =
  model_reply :: "nat list \<Rightarrow> prompt \<Rightarrow> js_error + string"
  search :: "nat list \<Rightarrow> string \<Rightarrow> js_error + SearchResponse"
  parse_queries :: "string \<Rightarrow> SerpQuery list option"
  parse_result :: "string \<Rightarrow> ProcessResult option"
  parse_report :: "string \<Rightarrow> string option option"
  trim_prompt :: "string \<Rightarrow> int \<Rightarrow> string"
  trim :: "string \<Rightarrow> string"

definition formatMessages :: "string \<Rightarrow> string \<Rightarrow> Message list" where
  "formatMessages system prompt =
     [\<lparr>role = System, content = system, ident = ''system''\<rparr>,
      \<lparr>role = User, content = prompt, ident = ''user''\<rparr>]"

definition generateSerpQueries ::
  "world \<Rightarrow> nat list \<Rightarrow> string \<Rightarrow> int \<Rightarrow> string list \<Rightarrow> SerpQuery list" where
  "generateSerpQueries w site qry numQueries lrn =
     (case model_reply w site (SerpPrompt qry lrn numQueries) of
        Inl error \<Rightarrow> []
      | Inr reply \<Rightarrow>
          if reply = [] then []
          else (case parse_queries w reply of
                  None \<Rightarrow> []
                | Some queries \<Rightarrow> slice0 numQueries queries))"

definition processSerpResult ::
  "world \<Rightarrow> nat list \<Rightarrow> string \<Rightarrow> SearchResponse \<Rightarrow> int \<Rightarrow> int \<Rightarrow> ProcessResult" where
  "processSerpResult w site qry result numLearnings numFollowUpQuestions =
     (let contents = map (\<lambda>c. trim_prompt w c 25000) (compact (map markdown (data result)))
      in case model_reply w site
                (ProcessPrompt qry contents numLearnings numFollowUpQuestions) of
           Inl error \<Rightarrow> \<lparr>newLearnings = [], followUpQuestions = []\<rparr>
         | Inr reply \<Rightarrow>
             if reply = [] then \<lparr>newLearnings = [], followUpQuestions = []\<rparr>
             else (case parse_result w reply of
                     None \<Rightarrow> \<lparr>newLearnings = [], followUpQuestions = []\<rparr>
                   | Some parsed \<Rightarrow>
                       \<lparr>newLearnings = slice0 numLearnings (newLearnings parsed),
                        followUpQuestions =
                          slice0 numFollowUpQuestions (followUpQuestions parsed)\<rparr>))"

definition sources_section :: "string list \<Rightarrow> string" where
  "sources_section urls =
     ''\<newline>\<newline>## Sources\<newline>\<newline>'' @ join ''\<newline>'' (map (\<lambda>u. ''- '' @ u) urls)"

definition writeFinalReport :: "world \<Rightarrow> string \<Rightarrow> string list \<Rightarrow> string list \<Rightarrow> string" where
  "writeFinalReport w prompt lrn urls =
     (let learningsString =
            trim_prompt w (join ''\<newline>'' (map (\<lambda>learning. ''- '' @ learning) lrn)) 150000
      in case model_reply w [] (ReportPrompt prompt learningsString) of
           Inl error \<Rightarrow> ''Error: Could not generate report''
         | Inr reply \<Rightarrow>
             if reply = [] then ''Error: Could not generate report''
             else (case parse_report w reply of
                     Some (Some reportMarkdown) \<Rightarrow> reportMarkdown @ sources_section urls
                   | Some None \<Rightarrow> ''undefined'' @ sources_section urls
                   | None \<Rightarrow>
                       if CHR ''#'' \<in> set reply then reply @ sources_section urls
                       else ''Error: Could not parse report''))"

definition nextQuery :: "world \<Rightarrow> SerpQuery \<Rightarrow> ProcessResult \<Rightarrow> string" where
  "nextQuery w serpQuery processed =
     trim w (''\<newline>            Previous research goal: '' @ researchGoal serpQuery @
              ''\<newline>            Follow-up research directions: '' @
              concat (map (\<lambda>q. ''\<newline>'' @ q) (followUpQuestions processed)) @
              ''\<newline>          '')"

definition newBreadth :: "int \<Rightarrow> int" where
  "newBreadth breadth = \<lceil>real_of_int breadth / 2\<rceil>"

text \<open>
  \<open>depth\<close> is a JavaScript number. The model takes it to be finite and whole (what
  \<open>parseInt\<close> yields for an entered number of ordinary size) and keeps it as an integer;
  \<open>depth - 1\<close> is then the double nearest to the exact difference, ties going to the
  even significand. Whole doubles are the multiples of their spacing: 1 below
  \<open>2 ^ 53\<close>, 2 from \<open>2 ^ 53\<close>, 4 from \<open>2 ^ 54\<close>, and so on. A depth of \<open>Infinity\<close> is
  not represented.
\<close>

function spacing_from :: "int \<Rightarrow> int \<Rightarrow> int" where
  "spacing_from u x =
     (if 0 < u \<and> 9007199254740992 * u \<le> \<bar>x\<bar> then spacing_from (2 * u) x else u)"
  by pat_completeness auto
termination
  by (relation "measure (\<lambda>(u, x). nat (\<bar>x\<bar> - u))") auto

definition round_double :: "int \<Rightarrow> int" where
  "round_double x =
     (let u = spacing_from 1 x; q = x div u; r = x mod u
      in if 2 * r < u then q * u
         else if u < 2 * r then (q + 1) * u
         else if even q then q * u else (q + 1) * u)"

definition newDepth :: "int \<Rightarrow> int" where
  "newDepth depth = round_double (depth - 1)"

text \<open>
  The \<open>catch\<close> block of a branch. It picks a log line and returns the empty result;
  its last test reads \<open>e.message.includes\<close>, which throws a \<open>TypeError\<close> when the
  caught value has none of the three status codes and no \<open>message\<close>.
\<close>

definition on_branch_error :: "js_error \<Rightarrow> js_error + ResearchResult" where
  "on_branch_error e =
     (if statusCode e = Some 429 then Inr \<lparr>learnings = [], visitedUrls = []\<rparr>
      else if statusCode e = Some 401 then Inr \<lparr>learnings = [], visitedUrls = []\<rparr>
      else if statusCode e = Some 404 then Inr \<lparr>learnings = [], visitedUrls = []\<rparr>
      else (case message e of
              None \<Rightarrow> Inl (Error ''Cannot read properties of undefined (reading 'includes')'')
            | Some m \<Rightarrow> Inr \<lparr>learnings = [], visitedUrls = []\<rparr>))"

text \<open>
  \<open>Promise.all\<close> over promises of which some may never settle (\<open>None\<close>): it rejects as
  soon as one promise rejects, resolves with all results in the order of the array
  once all have resolved, and otherwise never settles. In this program a branch can
  only reject with the \<open>TypeError\<close> of \<open>on_branch_error\<close>, so which rejection comes
  first does not matter.
\<close>

fun promise_all :: "('e + 'a) option list \<Rightarrow> ('e + 'a list) option" where
  "promise_all [] = Some (Inr [])"
| "promise_all (Some (Inl e) # ps) = Some (Inl e)"
| "promise_all (Some (Inr a) # ps) =
     (case promise_all ps of
        None \<Rightarrow> None
      | Some (Inl e) \<Rightarrow> Some (Inl e)
      | Some (Inr as) \<Rightarrow> Some (Inr (a # as)))"
| "promise_all (None # ps) =
     (case promise_all ps of
        None \<Rightarrow> None
      | Some (Inl e) \<Rightarrow> Some (Inl e)
      | Some (Inr as) \<Rightarrow> None)"

text \<open>
  What a run does besides computing its result: the calls of \<open>deepResearch\<close> (with the
  site, breadth and depth of the call), of the planner, of the search provider and of
  the digester. Sibling branches run interleaved; the log lists them branch after
  branch, and only what it contains is used, never the order across branches.
\<close>

datatype event =
    DeepResearch "nat list" int int
  | GenerateSerpQueries "nat list"
  | FirecrawlSearch "nat list" string
  | ProcessSerpResult "nat list" string

definition aggregate :: "ResearchResult list \<Rightarrow> ResearchResult" where
  "aggregate results =
     \<lparr>learnings = newSet (concat (map learnings results)),
      visitedUrls = newSet (concat (map visitedUrls results))\<rparr>"

text \<open>
  \<open>deepResearch\<close>, and \<open>runBranch\<close> for the function it maps over the planned queries
  (lines 264 to 329). The recursive call is returned without \<open>await\<close>, so the \<open>try\<close>
  block is left before that promise settles: a rejection of the recursive call is not
  caught, the branch settles as the recursive call does.

  Nothing in the function bounds the recursion but \<open>newDepth > 0\<close>, and \<open>newDepth\<close> need
  not be smaller than \<open>depth\<close>; so the model carries fuel, the number of nested calls
  of \<open>deepResearch\<close> it follows. The result is the log of the calls made within these
  levels and the way the promise settles, \<open>None\<close> when it has not settled within them.
\<close>

fun deepResearch ::
  "nat \<Rightarrow> world \<Rightarrow> nat list \<Rightarrow> string \<Rightarrow> int \<Rightarrow> int \<Rightarrow> string list \<Rightarrow> string list \<Rightarrow>
   event list \<times> (js_error + ResearchResult) option"
and runBranch ::
  "nat \<Rightarrow> world \<Rightarrow> nat list \<Rightarrow> SerpQuery \<Rightarrow> int \<Rightarrow> int \<Rightarrow> string list \<Rightarrow> string list \<Rightarrow>
   event list \<times> (js_error + ResearchResult) option" where
  "deepResearch 0 w site qry breadth depth lrn urls = ([], None)"
| "deepResearch (Suc fuel) w site qry breadth depth lrn urls =
     (let serpQueries = generateSerpQueries w site qry breadth lrn;
          runs = map (\<lambda>(i, serpQuery).
                        runBranch fuel w (site @ [i]) serpQuery breadth depth lrn urls)
                     (enumerate 0 serpQueries)
      in (DeepResearch site breadth depth # GenerateSerpQueries site # concat (map fst runs),
          case promise_all (map snd runs) of
            None \<Rightarrow> None
          | Some (Inl e) \<Rightarrow> Some (Inl e)
          | Some (Inr results) \<Rightarrow> Some (Inr (aggregate results))))"
| "runBranch fuel w site serpQuery breadth depth lrn urls =
     (case search w site (query serpQuery) of
        Inl e \<Rightarrow> ([FirecrawlSearch site (query serpQuery)], Some (on_branch_error e))
      | Inr result \<Rightarrow>
          (let newUrls = compact (map url (data result));
               processed =
                 processSerpResult w site (query serpQuery) result 3 (newBreadth breadth);
               allLearnings = lrn @ newLearnings processed;
               allUrls = urls @ newUrls;
               calls = [FirecrawlSearch site (query serpQuery),
                        ProcessSerpResult site (query serpQuery)]
           in if newDepth depth > 0 then
                (case deepResearch fuel w site (nextQuery w serpQuery processed)
                        (newBreadth breadth) (newDepth depth) allLearnings allUrls of
                   (deeper, settled) \<Rightarrow> (calls @ deeper, settled))
              else (calls, Some (Inr \<lparr>learnings = allLearnings, visitedUrls = allUrls\<rparr>))))"

section \<open>Notions used to state the properties\<close>

text \<open>
  The runs of the branches of one call, in the order of the planned queries, and the
  way \<open>deepResearch\<close> settles from how its branches settled.
\<close>

definition branch_runs ::
  "nat \<Rightarrow> world \<Rightarrow> nat list \<Rightarrow> string \<Rightarrow> int \<Rightarrow> int \<Rightarrow> string list \<Rightarrow> string list \<Rightarrow>
   (event list \<times> (js_error + ResearchResult) option) list" where
  "branch_runs fuel w site qry breadth depth lrn urls =
     map (\<lambda>(i, serpQuery). runBranch fuel w (site @ [i]) serpQuery breadth depth lrn urls)
         (enumerate 0 (generateSerpQueries w site qry breadth lrn))"

definition settle ::
  "(js_error + ResearchResult) option list \<Rightarrow> (js_error + ResearchResult) option" where
  "settle branches =
     (case promise_all branches of
        None \<Rightarrow> None
      | Some (Inl e) \<Rightarrow> Some (Inl e)
      | Some (Inr results) \<Rightarrow> Some (Inr (aggregate results)))"

text \<open>
  The failures of a search the \<open>catch\<close> block names: rate limit (429), invalid key
  (401), not found (404), and a network error, which is an \<open>Error\<close> and so carries a
  message (\<open>ENOTFOUND\<close> for the log line).
\<close>

definition classified :: "js_error \<Rightarrow> bool" where
  "classified e =
     (statusCode e = Some 429 \<or> statusCode e = Some 401 \<or> statusCode e = Some 404 \<or>
      message e \<noteq> None)"

text \<open>\<open>s.split(c)\<close> for a one-character separator, to read a text line by line.\<close>

fun js_split :: "char \<Rightarrow> string \<Rightarrow> string list" where
  "js_split c [] = [[]]"
| "js_split c (x # xs) =
     (if x = c then [] # js_split c xs
      else (case js_split c xs of [] \<Rightarrow> [[x]] | l # ls \<Rightarrow> (x # l) # ls))"

text \<open>
  How a branch settles when it makes no recursive call: empty (or the \<open>TypeError\<close>) when
  its search failed, its accumulated and new learnings and URLs otherwise; and the
  calls it makes: the search, and the digestion when the search succeeded.
\<close>

definition leaf_result ::
  "world \<Rightarrow> nat list \<Rightarrow> SerpQuery \<Rightarrow> int \<Rightarrow> string list \<Rightarrow> string list \<Rightarrow>
   js_error + ResearchResult" where
  "leaf_result w site serpQuery breadth lrn urls =
     (case search w site (query serpQuery) of
        Inl e \<Rightarrow> on_branch_error e
      | Inr result \<Rightarrow>
          Inr \<lparr>learnings =
                 lrn @ newLearnings (processSerpResult w site (query serpQuery) result 3
                                       (newBreadth breadth)),
               visitedUrls = urls @ compact (map url (data result))\<rparr>)"

definition leaf_calls :: "world \<Rightarrow> nat list \<Rightarrow> SerpQuery \<Rightarrow> event list" where
  "leaf_calls w site serpQuery =
     (case search w site (query serpQuery) of
        Inl e \<Rightarrow> [FirecrawlSearch site (query serpQuery)]
      | Inr result \<Rightarrow> [FirecrawlSearch site (query serpQuery),
                       ProcessSerpResult site (query serpQuery)])"

fun is_planner_call :: "event \<Rightarrow> bool" where
  "is_planner_call (GenerateSerpQueries site) = True"
| "is_planner_call (DeepResearch site breadth depth) = False"
| "is_planner_call (FirecrawlSearch site q) = False"
| "is_planner_call (ProcessSerpResult site q) = False"

fun is_deepResearch_call :: "event \<Rightarrow> bool" where
  "is_deepResearch_call (DeepResearch site breadth depth) = True"
| "is_deepResearch_call (GenerateSerpQueries site) = False"
| "is_deepResearch_call (FirecrawlSearch site q) = False"
| "is_deepResearch_call (ProcessSerpResult site q) = False"

section \<open>Concrete inputs\<close>

text \<open>
  \<open>trim\<close> on texts of ASCII characters, where the white space to strip is the space
  and the control characters 9 to 13.
\<close>

definition is_space :: "char \<Rightarrow> bool" where
  "is_space c = (c \<in> set [CHR '' '', CHR 0x09, CHR ''\<newline>'', CHR 0x0B, CHR 0x0C, CHR 0x0D])"

definition ascii_trim :: "string \<Rightarrow> string" where
  "ascii_trim s = rev (dropWhile is_space (rev (dropWhile is_space s)))"

text \<open>
  A world in which the planner always proposes the two queries \<open>q1\<close> and \<open>q2\<close>, every
  search finds the one page \<open>https://a\<close>, and every digestion yields the learning
  \<open>L\<close> and the follow-up question \<open>f\<close>.
\<close>

definition demo_world :: world where
  "demo_world =
     \<lparr>model_reply = (\<lambda>site p. Inr ''r''),
      search = (\<lambda>site q. Inr \<lparr>data = [\<lparr>url = Some ''https://a'', markdown = Some ''m''\<rparr>]\<rparr>),
      parse_queries = (\<lambda>c. Some [\<lparr>query = ''q1'', researchGoal = ''g1''\<rparr>,
                                  \<lparr>query = ''q2'', researchGoal = ''g2''\<rparr>]),
      parse_result = (\<lambda>c. Some \<lparr>newLearnings = [''L''], followUpQuestions = [''f'']\<rparr>),
      parse_report = (\<lambda>c. Some (Some ''# R'')),
      trim_prompt = (\<lambda>s n. s),
      trim = ascii_trim\<rparr>"

text \<open>The same world with a planner that proposes nothing.\<close>

definition silent_world :: world where
  "silent_world = demo_world\<lparr>parse_queries := (\<lambda>c. Some [])\<rparr>"

text \<open>The same world, except that the search of the first root branch is rate limited.\<close>

definition rate_limited :: js_error where
  "rate_limited = \<lparr>status = None, statusCode = Some 429, message = Some ''Rate limit exceeded''\<rparr>"

definition flaky_world :: world where
  "flaky_world =
     demo_world\<lparr>search := (\<lambda>site q. if site = [0] then Inl rate_limited
                                      else search demo_world site q)\<rparr>"

text \<open>An upstream that throttles the first four attempts and then answers.\<close>

definition throttled_then_ok :: "nat \<Rightarrow> upstream_request \<Rightarrow> js_error + string" where
  "throttled_then_ok k r =
     (if k < 4
      then Inl \<lparr>status = Some 429, statusCode = None, message = Some ''Too Many Requests''\<rparr>
      else Inr ''ok'')"

text \<open>A splitter that cuts hard at the chunk size, and one token per character.\<close>

definition hard_split :: "nat \<Rightarrow> string \<Rightarrow> string list" where
  "hard_split n s = [take n s]"

section \<open>Auxiliary facts\<close>

declare retry_loop.simps [simp del]
declare spacing_from.simps [simp del]
declare deepResearch.simps [simp del]
declare runBranch.simps [simp del]

lemma set_add_all_distinct: "distinct seen \<Longrightarrow> distinct (set_add_all seen xs)"
  by (induction xs arbitrary: seen) auto

lemma set_add_all_set: "set (set_add_all seen xs) = set seen \<union> set xs"
  by (induction xs arbitrary: seen) auto

lemma newSet_distinct: "distinct (newSet xs)"
  by (simp add: newSet_def set_add_all_distinct)

lemma newSet_set: "set (newSet xs) = set xs"
  by (simp add: newSet_def set_add_all_set)

text \<open>
  Subtracting 1 from a depth: exact while the difference is below \<open>2 ^ 53\<close> in absolute
  value, and never positive when the difference is not.
\<close>

lemma spacing_from_pos: "0 < u \<Longrightarrow> 0 < spacing_from u x"
  by (induction u x rule: spacing_from.induct) (simp add: spacing_from.simps)

lemma round_double_exact: "\<bar>x\<bar> < 9007199254740992 \<Longrightarrow> round_double x = x"
  by (simp add: round_double_def spacing_from.simps [of 1 x])

lemma round_double_nonpos:
  assumes "x \<le> 0"
  shows "round_double x \<le> 0"
proof -
  define u where "u = spacing_from 1 x"
  have u: "0 < u" by (simp add: u_def spacing_from_pos)
  show ?thesis
  proof (cases "x = 0")
    case True
    then show ?thesis using u by (simp add: round_double_def Let_def)
  next
    case False
    with assms have "x < 0" by simp
    with u have q: "x div u < 0" using pos_imp_zdiv_neg_iff [of u x] by blast
    then have "x div u * u \<le> 0" and "(x div u + 1) * u \<le> 0"
      using u by (simp_all add: mult_le_0_iff)
    then show ?thesis
      by (simp add: round_double_def Let_def u_def [symmetric])
  qed
qed

lemma newDepth_exact:
  assumes "depth \<le> 9007199254740992" and "0 < newDepth depth"
  shows "newDepth depth = depth - 1"
proof -
  have "0 < depth - 1"
    using assms(2) round_double_nonpos [of "depth - 1"] by (fastforce simp: newDepth_def)
  with assms(1) show ?thesis
    by (simp add: newDepth_def round_double_exact)
qed

lemma newDepth_shallow: "depth \<le> 1 \<Longrightarrow> \<not> 0 < newDepth depth"
  using round_double_nonpos [of "depth - 1"] by (simp add: newDepth_def)

text \<open>One level of \<open>deepResearch\<close>, and the three ways a branch runs.\<close>

lemma deepResearch_unfold:
  "deepResearch (Suc fuel) w site qry breadth depth lrn urls =
     (DeepResearch site breadth depth # GenerateSerpQueries site #
        concat (map fst (branch_runs fuel w site qry breadth depth lrn urls)),
      settle (map snd (branch_runs fuel w site qry breadth depth lrn urls)))"
  by (simp add: deepResearch.simps branch_runs_def settle_def Let_def)

lemma runBranch_failed:
  "search w site (query serpQuery) = Inl e \<Longrightarrow>
   runBranch fuel w site serpQuery breadth depth lrn urls =
     ([FirecrawlSearch site (query serpQuery)], Some (on_branch_error e))"
  by (simp add: runBranch.simps)

lemma runBranch_leaf:
  "search w site (query serpQuery) = Inr result \<Longrightarrow> \<not> 0 < newDepth depth \<Longrightarrow>
   runBranch fuel w site serpQuery breadth depth lrn urls =
     ([FirecrawlSearch site (query serpQuery), ProcessSerpResult site (query serpQuery)],
      Some (Inr \<lparr>learnings =
             lrn @ newLearnings (processSerpResult w site (query serpQuery) result 3
                                   (newBreadth breadth)),
           visitedUrls = urls @ compact (map url (data result))\<rparr>))"
  by (simp add: runBranch.simps Let_def)

lemma runBranch_deeper:
  "search w site (query serpQuery) = Inr result \<Longrightarrow> 0 < newDepth depth \<Longrightarrow>
   runBranch fuel w site serpQuery breadth depth lrn urls =
     (let processed = processSerpResult w site (query serpQuery) result 3 (newBreadth breadth);
          deeper = deepResearch fuel w site (nextQuery w serpQuery processed)
                     (newBreadth breadth) (newDepth depth) (lrn @ newLearnings processed)
                     (urls @ compact (map url (data result)))
      in ([FirecrawlSearch site (query serpQuery), ProcessSerpResult site (query serpQuery)]
            @ fst deeper,
          snd deeper))"
  by (simp add: runBranch.simps Let_def split: prod.splits)

text \<open>The invariant of the retry loop, from any value of \<open>retryCount\<close> it is entered with.\<close>

lemma retry_loop_inv:
  "c \<le> MAX_RETRIES \<Longrightarrow>
   (let run = retry_loop upstream rnd r c; n = length (slept run)
    in c + n \<le> MAX_RETRIES \<and> sent run = replicate (Suc n) r \<and>
       (\<forall>k<n. slept run ! k = delay (rnd (c + k + 1)) (c + k + 1) \<and>
              (\<exists>e. upstream (c + k) r = Inl e \<and> status e = Some 429)) \<and>
       outcome run = upstream (c + n) r \<and>
       (\<forall>e. outcome run = Inl e \<and> status e = Some 429 \<longrightarrow> c + n = MAX_RETRIES))"
proof (induction upstream rnd r c rule: retry_loop.induct)
  case (1 upstream rnd r retryCount)
  show ?case
  proof (cases "upstream retryCount r")
    case (Inr response)
    then show ?thesis using "1.prems"
      by (simp add: retry_loop.simps [of upstream rnd r retryCount])
  next
    case (Inl error)
    show ?thesis
    proof (cases "status error = Some 429 \<and> retryCount < MAX_RETRIES")
      case False
      then show ?thesis using "1.prems" Inl
        by (auto simp add: retry_loop.simps [of upstream rnd r retryCount])
    next
      case True
      then have le: "retryCount + 1 \<le> MAX_RETRIES" by simp
      note IH = "1.IH" [OF "1.prems" Inl True le]
      show ?thesis using IH Inl True "1.prems"
        apply (simp add: retry_loop.simps [of upstream rnd r retryCount] Let_def)
        apply (auto simp: nth_Cons split: nat.splits)
        done
    qed
  qed
qed

text \<open>
  \<open>trimPrompt\<close>: a text of at most 2000 characters comes back as it is, every result is
  a fixed point, and the function returns when the splitter's first chunk is no longer
  than its input.
\<close>

lemma trimPrompt_short_fixed:
  assumes "y \<noteq> []" "length y \<le> 2000"
  shows "trimPrompt encode splitText y contextSize = Some y"
proof (cases "int (encode y) \<le> contextSize")
  case True
  then show ?thesis using assms by (simp add: trimPrompt.simps [of encode splitText y])
next
  case False
  then have "int (length y) - (int (encode y) - contextSize) * 3 < MinChunkSize"
    using assms by (simp add: MinChunkSize_def)
  then show ?thesis using assms False
    by (simp add: trimPrompt.simps [of encode splitText y] Let_def MinChunkSize_def)
qed

lemma trimPrompt_fixed:
  assumes "trimPrompt encode splitText prompt contextSize = Some r"
  shows "trimPrompt encode splitText r contextSize = Some r"
proof (rule trimPrompt.raw_induct
         [where P = "\<lambda>encode splitText prompt contextSize r.
                       trimPrompt encode splitText r contextSize = Some r", OF _ assms])
  fix f encode splitText prompt contextSize r
  assume IH: "\<And>encode splitText prompt contextSize r.
                f encode splitText prompt contextSize = Some r \<Longrightarrow>
                trimPrompt encode splitText r contextSize = Some r"
    and body: "(if prompt = [] then Some []
      else if int (encode prompt) \<le> contextSize then Some prompt
      else
        let overflowTokens = int (encode prompt) - contextSize;
            chunkSize = int (length prompt) - overflowTokens * 3
        in if chunkSize < MinChunkSize then Some (take (nat MinChunkSize) prompt)
           else
             let trimmedPrompt =
                   (case splitText (nat chunkSize) prompt of [] \<Rightarrow> [] | c # cs \<Rightarrow> c)
             in if length trimmedPrompt = length prompt
                then f encode splitText (take (nat chunkSize) prompt) contextSize
                else f encode splitText trimmedPrompt contextSize) = Some r"
  show "trimPrompt encode splitText r contextSize = Some r"
  proof (cases "prompt = []")
    case True
    with body have "r = []" by simp
    then show ?thesis by (simp add: trimPrompt.simps [of encode splitText "[]"])
  next
    case ne: False
    show ?thesis
    proof (cases "int (encode prompt) \<le> contextSize")
      case True
      with ne body have "r = prompt" by simp
      then show ?thesis using True ne by (simp add: trimPrompt.simps [of encode splitText prompt])
    next
      case over: False
      show ?thesis
      proof (cases "int (length prompt) - (int (encode prompt) - contextSize) * 3 < MinChunkSize")
        case True
        with ne over body have r: "r = take (nat MinChunkSize) prompt"
          by (simp add: Let_def)
        have "r \<noteq> []" "length r \<le> 2000" using ne by (simp_all add: r MinChunkSize_def)
        then show ?thesis by (rule trimPrompt_short_fixed)
      next
        case False
        with ne over body have
          "f encode splitText (take (nat (int (length prompt) - (int (encode prompt) - contextSize) * 3)) prompt) contextSize = Some r
           \<or> f encode splitText (case splitText (nat (int (length prompt) - (int (encode prompt) - contextSize) * 3)) prompt of [] \<Rightarrow> [] | c # cs \<Rightarrow> c) contextSize = Some r"
          by (simp add: Let_def split: if_splits)
        then show ?thesis using IH by blast
      qed
    qed
  qed
qed

lemma trimPrompt_returns:
  assumes "first_chunk_no_longer splitText"
  shows "\<exists>r. trimPrompt encode splitText prompt contextSize = Some r"
proof (induction "length prompt" arbitrary: prompt rule: less_induct)
  case less
  show ?case
  proof (cases "prompt = [] \<or> int (encode prompt) \<le> contextSize \<or>
                int (length prompt) - (int (encode prompt) - contextSize) * 3 < MinChunkSize")
    case True
    then show ?thesis
      by (auto simp add: trimPrompt.simps [of encode splitText prompt] Let_def)
  next
    case False
    define chunkSize where "chunkSize = int (length prompt) - (int (encode prompt) - contextSize) * 3"
    define trimmedPrompt where
      "trimmedPrompt = (case splitText (nat chunkSize) prompt of [] \<Rightarrow> [] | c # cs \<Rightarrow> c)"
    have cs: "MinChunkSize \<le> chunkSize" "chunkSize < int (length prompt)"
      using False by (simp_all add: chunkSize_def)
    have "length (take (nat chunkSize) prompt) < length prompt"
      using cs by (simp add: MinChunkSize_def)
    from less [OF this] obtain r1 where
      r1: "trimPrompt encode splitText (take (nat chunkSize) prompt) contextSize = Some r1" by blast
    have "case splitText (nat chunkSize) prompt of [] \<Rightarrow> True | c # cs \<Rightarrow> length c \<le> length prompt"
      using assms unfolding first_chunk_no_longer_def by blast
    then have "length trimmedPrompt \<le> length prompt"
      by (simp add: trimmedPrompt_def split: list.splits)
    then have "length trimmedPrompt \<noteq> length prompt \<Longrightarrow> length trimmedPrompt < length prompt"
      by simp
    from less [OF this] obtain r2 where
      r2: "length trimmedPrompt \<noteq> length prompt \<Longrightarrow>
           trimPrompt encode splitText trimmedPrompt contextSize = Some r2" by blast
    have step: "trimPrompt encode splitText prompt contextSize =
                (if length trimmedPrompt = length prompt
                 then trimPrompt encode splitText (take (nat chunkSize) prompt) contextSize
                 else trimPrompt encode splitText trimmedPrompt contextSize)"
      using False
      by (simp add: trimPrompt.simps [of encode splitText prompt] Let_def
            chunkSize_def trimmedPrompt_def)
    show ?thesis using r1 r2 by (simp add: step)
  qed
qed

lemma hard_split_ok: "first_chunk_no_longer hard_split"
  by (simp add: first_chunk_no_longer_def hard_split_def)

text \<open>Reading back, line by line, lines that were joined with the separator.\<close>

lemma js_split_plain: "c \<notin> set x \<Longrightarrow> js_split c x = [x]"
  by (induction x) auto

lemma js_split_line: "c \<notin> set x \<Longrightarrow> js_split c (x @ c # rest) = x # js_split c rest"
  by (induction x) auto

lemma js_split_join:
  "xs \<noteq> [] \<Longrightarrow> \<forall>x\<in>set xs. c \<notin> set x \<Longrightarrow> js_split c (join [c] xs) = xs"
  by (induction "[c]" xs rule: join.induct) (auto simp: js_split_plain js_split_line)

text \<open>The branches of a call, one per planned query, and how the call settles from them.\<close>

lemma length_branch_runs:
  "length (branch_runs fuel w site qry breadth depth lrn urls) =
   length (generateSerpQueries w site qry breadth lrn)"
  by (simp add: branch_runs_def)

lemma nth_branch_runs:
  "i < length (generateSerpQueries w site qry breadth lrn) \<Longrightarrow>
   branch_runs fuel w site qry breadth depth lrn urls ! i =
     runBranch fuel w (site @ [i]) (generateSerpQueries w site qry breadth lrn ! i)
       breadth depth lrn urls"
  by (simp add: branch_runs_def nth_enumerate_eq)

lemma promise_all_insert_resolved:
  "promise_all (xs @ Some (Inr a) # ys) =
     (case promise_all (xs @ ys) of
        None \<Rightarrow> None
      | Some (Inl e) \<Rightarrow> Some (Inl e)
      | Some (Inr rs) \<Rightarrow> Some (Inr (take (length xs) rs @ a # drop (length xs) rs)))"
  by (induction xs rule: promise_all.induct) (auto split: option.splits sum.splits)

lemma aggregate_insert_empty:
  "aggregate (take n rs @ \<lparr>learnings = [], visitedUrls = []\<rparr> # drop n rs) = aggregate rs"
proof -
  have "concat (map f (take n rs)) @ concat (map f (drop n rs)) = concat (map f rs)"
    for f :: "ResearchResult \<Rightarrow> string list"
    by (metis append_take_drop_id concat_append map_append)
  then show ?thesis by (simp add: aggregate_def)
qed

lemma settle_skip_empty:
  "settle (xs @ Some (Inr \<lparr>learnings = [], visitedUrls = []\<rparr>) # ys) = settle (xs @ ys)"
  by (simp add: settle_def promise_all_insert_resolved aggregate_insert_empty
        split: option.splits sum.splits)

lemma settle_Inr:
  "settle branches = Some (Inr r) \<Longrightarrow>
   \<exists>results. promise_all branches = Some (Inr results) \<and> r = aggregate results"
  by (auto simp: settle_def split: option.splits sum.splits)

lemma promise_all_settles: "\<forall>p \<in> set ps. p \<noteq> None \<Longrightarrow> promise_all ps \<noteq> None"
  by (induction ps rule: promise_all.induct) (auto split: option.splits sum.splits)

lemma promise_all_all_pending:
  "\<forall>p \<in> set ps. p = None \<Longrightarrow> promise_all ps = (if ps = [] then Some (Inr []) else None)"
  by (induction ps rule: promise_all.induct) (auto split: option.splits sum.splits)

lemma promise_all_pending: "ps \<noteq> [] \<Longrightarrow> \<forall>p \<in> set ps. p = None \<Longrightarrow> promise_all ps = None"
  by (simp add: promise_all_all_pending)

lemma settle_settles: "\<forall>p \<in> set ps. p \<noteq> None \<Longrightarrow> settle ps \<noteq> None"
  using promise_all_settles [of ps] by (auto simp: settle_def split: option.splits sum.splits)

lemma settle_pending: "ps \<noteq> [] \<Longrightarrow> \<forall>p \<in> set ps. p = None \<Longrightarrow> settle ps = None"
  by (simp add: settle_def promise_all_pending)

text \<open>A branch of a call with depth at most 1 makes no recursive call.\<close>

lemma runBranch_shallow:
  "depth \<le> 1 \<Longrightarrow>
   runBranch fuel w site serpQuery breadth depth lrn urls =
     (leaf_calls w site serpQuery, Some (leaf_result w site serpQuery breadth lrn urls))"
  using newDepth_shallow [of depth]
  by (cases "search w site (query serpQuery)")
     (simp_all add: runBranch_failed runBranch_leaf leaf_result_def leaf_calls_def)

lemma leaf_calls_no_planner:
  "filter is_planner_call (concat (map (\<lambda>(i, serpQuery). leaf_calls w (f i) serpQuery) xs)) = []"
  by (induction xs) (auto simp: leaf_calls_def split: sum.splits)

lemma leaf_calls_no_deepResearch:
  "filter is_deepResearch_call
     (concat (map (\<lambda>(i, serpQuery). leaf_calls w (f i) serpQuery) xs)) = []"
  by (induction xs) (auto simp: leaf_calls_def split: sum.splits)

text \<open>
  Where the calls of \<open>deepResearch\<close> sit in the tree of one run, whatever the fuel: a
  call logged at site \<open>s\<close> below the call at \<open>site\<close> was made with a breadth of at least
  1 when the run was; and when the depth of the run is at most \<open>2 ^ 53\<close>, it has that
  depth minus the number of levels between them, positive if it is a nested call.
\<close>

lemma calls_in_run:
  shows "DeepResearch s b d \<in> set (fst (deepResearch fuel w site qry breadth depth lrn urls)) \<Longrightarrow>
         length site \<le> length s \<and> (1 \<le> breadth \<longrightarrow> 1 \<le> b) \<and>
         (depth \<le> 9007199254740992 \<longrightarrow>
            d = depth - int (length s - length site) \<and> (length site < length s \<longrightarrow> 0 < d))"
    and "DeepResearch s b d \<in> set (fst (runBranch fuel w site serpQuery breadth depth lrn urls)) \<Longrightarrow>
         length site \<le> length s \<and> (1 \<le> breadth \<longrightarrow> 1 \<le> b) \<and>
         (depth \<le> 9007199254740992 \<longrightarrow>
            d = depth - 1 - int (length s - length site) \<and> 0 < d)"
proof (induction fuel w site qry breadth depth lrn urls
         and fuel w site serpQuery breadth depth lrn urls
       arbitrary: s b d and s b d rule: deepResearch_runBranch.induct)
  case (1 w site qry breadth depth lrn urls)
  then show ?case by (simp add: deepResearch.simps)
next
  case (2 fuel w site qry breadth depth lrn urls)
  from "2.prems" consider "s = site \<and> b = breadth \<and> d = depth"
    | run where "run \<in> set (branch_runs fuel w site qry breadth depth lrn urls)"
        "DeepResearch s b d \<in> set (fst run)"
    by (auto simp: deepResearch_unfold)
  then show ?case
  proof cases
    case 1
    then show ?thesis by simp
  next
    case 2
    then obtain i serpQuery where
      mem: "(i, serpQuery) \<in> set (enumerate 0 (generateSerpQueries w site qry breadth lrn))"
      and run: "run = runBranch fuel w (site @ [i]) serpQuery breadth depth lrn urls"
      by (auto simp: branch_runs_def)
    from "2.IH" [OF refl mem refl] 2(2) run
    have "length (site @ [i]) \<le> length s \<and> (1 \<le> breadth \<longrightarrow> 1 \<le> b) \<and>
          (depth \<le> 9007199254740992 \<longrightarrow>
             d = depth - 1 - int (length s - length (site @ [i])) \<and> 0 < d)"
      by blast
    then show ?thesis by (auto simp: of_nat_diff)
  qed
next
  case (3 fuel w site serpQuery breadth depth lrn urls)
  show ?case
  proof (cases "search w site (query serpQuery)")
    case (Inl e)
    with "3.prems" show ?thesis by (simp add: runBranch_failed)
  next
    case (Inr result)
    show ?thesis
    proof (cases "0 < newDepth depth")
      case False
      with Inr "3.prems" show ?thesis by (simp add: runBranch_leaf)
    next
      case True
      define processed where
        "processed = processSerpResult w site (query serpQuery) result 3 (newBreadth breadth)"
      from "3.prems" Inr True
      have ev: "DeepResearch s b d \<in> set (fst (deepResearch fuel w site
                  (nextQuery w serpQuery processed)
                  (newBreadth breadth) (newDepth depth) (lrn @ newLearnings processed)
                  (urls @ compact (map url (data result)))))"
        by (simp add: runBranch_deeper Let_def processed_def)
      have IH: "length site \<le> length s \<and> (1 \<le> newBreadth breadth \<longrightarrow> 1 \<le> b) \<and>
            (newDepth depth \<le> 9007199254740992 \<longrightarrow>
               d = newDepth depth - int (length s - length site) \<and>
               (length site < length s \<longrightarrow> 0 < d))"
        by (rule "3.IH" [OF Inr refl processed_def refl refl refl True ev])
      have br: "1 \<le> breadth \<Longrightarrow> 1 \<le> newBreadth breadth"
        unfolding newBreadth_def by linarith
      have "d = depth - 1 - int (length s - length site) \<and> 0 < d"
        if small: "depth \<le> 9007199254740992"
      proof -
        have nd: "newDepth depth = depth - 1"
          using small True by (rule newDepth_exact)
        with IH small True show ?thesis
          by (cases "length site < length s") auto
      qed
      with IH br show ?thesis by blast
    qed
  qed
qed

text \<open>
  With a depth of at most \<open>2 ^ 53\<close>, fuel for as many levels as the depth (one level at
  least) is enough for the call to settle.
\<close>

lemma settles_within_depth:
  shows "depth \<le> 9007199254740992 \<Longrightarrow> depth \<le> int fuel \<Longrightarrow> 1 \<le> fuel \<Longrightarrow>
         snd (deepResearch fuel w site qry breadth depth lrn urls) \<noteq> None"
    and "depth \<le> 9007199254740992 \<Longrightarrow> depth - 1 \<le> int fuel \<Longrightarrow>
         snd (runBranch fuel w site serpQuery breadth depth lrn urls) \<noteq> None"
proof (induction fuel w site qry breadth depth lrn urls
         and fuel w site serpQuery breadth depth lrn urls
       rule: deepResearch_runBranch.induct)
  case (1 w site qry breadth depth lrn urls)
  then show ?case by simp
next
  case (2 fuel w site qry breadth depth lrn urls)
  have "p \<noteq> None" if "p \<in> set (map snd (branch_runs fuel w site qry breadth depth lrn urls))" for p
  proof -
    from that obtain i serpQuery where
      mem: "(i, serpQuery) \<in> set (enumerate 0 (generateSerpQueries w site qry breadth lrn))"
      and p: "p = snd (runBranch fuel w (site @ [i]) serpQuery breadth depth lrn urls)"
      by (auto simp: branch_runs_def)
    from "2.prems" have "depth - 1 \<le> int fuel" by simp
    with "2.IH" [OF refl mem refl "2.prems"(1)] p show ?thesis by simp
  qed
  then show ?case by (simp add: deepResearch_unfold settle_settles)
next
  case (3 fuel w site serpQuery breadth depth lrn urls)
  show ?case
  proof (cases "search w site (query serpQuery)")
    case (Inl e)
    then show ?thesis by (simp add: runBranch_failed)
  next
    case (Inr result)
    show ?thesis
    proof (cases "0 < newDepth depth")
      case False
      with Inr show ?thesis by (simp add: runBranch_leaf)
    next
      case True
      have nd: "newDepth depth = depth - 1"
        using "3.prems"(1) True by (rule newDepth_exact)
      with True "3.prems" have "newDepth depth \<le> 9007199254740992"
        "newDepth depth \<le> int fuel" "1 \<le> fuel"
        by simp_all
      from "3.IH" [OF Inr refl refl refl refl refl True this]
      show ?thesis using Inr True by (simp add: runBranch_deeper Let_def)
    qed
  qed
qed

text \<open>
  From \<open>9007199254740996\<close> on, subtracting 1 gives the depth back. In the demo world,
  where every plan has a query and every search succeeds, a call with such a depth
  never settles, however much fuel it gets.
\<close>

lemma newDepth_stuck: "newDepth 9007199254740996 = 9007199254740996"
  by (simp add: newDepth_def round_double_def spacing_from.simps [of 1]
        spacing_from.simps [of 2])

lemma demo_never_settles:
  "1 \<le> breadth \<Longrightarrow>
   snd (deepResearch fuel demo_world site qry breadth 9007199254740996 lrn urls) = None"
proof (induction fuel arbitrary: site qry breadth lrn urls)
  case 0
  then show ?case by (simp add: deepResearch.simps)
next
  case (Suc fuel)
  have br: "1 \<le> newBreadth breadth"
    using Suc.prems unfolding newBreadth_def by linarith
  have plan: "generateSerpQueries demo_world site qry breadth lrn \<noteq> []"
    using Suc.prems by (auto simp: generateSerpQueries_def demo_world_def slice0_def)
  have "snd (runBranch fuel demo_world bsite serpQuery breadth 9007199254740996 lrn urls) = None"
    for bsite serpQuery
  proof -
    have s: "search demo_world bsite (query serpQuery) =
               Inr \<lparr>data = [\<lparr>url = Some ''https://a'', markdown = Some ''m''\<rparr>]\<rparr>"
      by (simp add: demo_world_def)
    show ?thesis
      using Suc.IH [OF br] by (simp add: runBranch_deeper [OF s] newDepth_stuck Let_def)
  qed
  then have "\<forall>p \<in> set (map snd (branch_runs fuel demo_world site qry breadth
                                   9007199254740996 lrn urls)). p = None"
    by (auto simp: branch_runs_def)
  moreover have "map snd (branch_runs fuel demo_world site qry breadth
                            9007199254740996 lrn urls) \<noteq> []"
    using plan length_branch_runs [of fuel demo_world site qry breadth 9007199254740996 lrn urls]
    by (metis length_map length_0_conv)
  ultimately show ?case by (simp add: deepResearch_unfold settle_pending)
qed

section \<open>The recursion of the orchestrator\<close>

text \<open>
  Claim C1, as stated: for every initial breadth of at least 1 and depth of at least
  0, \<open>deepResearch\<close> terminates, the depth going down by one at each recursive call, so
  that the calls nest at most the initial depth many levels. The depth is a double:
  at \<open>9007199254740996\<close> the difference \<open>depth - 1\<close> is rounded back to the depth
  itself, the nested calls are made with the depth of their parent, and in the demo
  world the call has not settled after one more level than its depth.
\<close>

theorem depth_decrease_counterexample:
  "(1::int) \<le> 2 \<and> (0::int) \<le> 9007199254740996 \<and>
   newDepth 9007199254740996 = 9007199254740996 \<and>
   DeepResearch [0] 1 9007199254740996
     \<in> set (fst (deepResearch 3 demo_world [] ''x'' 2 9007199254740996 [] [])) \<and>
   DeepResearch [0, 0] 1 9007199254740996
     \<in> set (fst (deepResearch 3 demo_world [] ''x'' 2 9007199254740996 [] [])) \<and>
   snd (deepResearch 9007199254740997 demo_world [] ''x'' 2 9007199254740996 [] []) = None"
proof -
  have "DeepResearch [0] 1 9007199254740996
          \<in> set (fst (deepResearch 3 demo_world [] ''x'' 2 9007199254740996 [] []))"
    and "DeepResearch [0, 0] 1 9007199254740996
          \<in> set (fst (deepResearch 3 demo_world [] ''x'' 2 9007199254740996 [] []))"
    by code_simp+
  moreover have "snd (deepResearch 9007199254740997 demo_world [] ''x'' 2
                        9007199254740996 [] []) = None"
    by (rule demo_never_settles) simp
  ultimately show ?thesis using newDepth_stuck by simp
qed

text \<open>
  Claim C1, amended. For every initial breadth of at least 1 and every whole depth
  from 0 to \<open>2 ^ 53\<close> (9007199254740992), \<open>deepResearch\<close> terminates: followed for as
  many nested levels as the depth (one level for depth 0), the root call settles;
  every call in its log at nesting level \<open>length s\<close> has depth \<open>depth - length s\<close>, so
  the depth goes down by one at each recursive call; the level is at most the initial
  depth; and a recursive call has a positive depth.
\<close>

theorem deepResearch_terminates:
  assumes "1 \<le> breadth" and "0 \<le> depth" and "depth \<le> 9007199254740992"
    and "nat (max 1 depth) \<le> fuel"
  shows "snd (deepResearch fuel w [] qry breadth depth lrn urls) \<noteq> None \<and>
         (\<forall>s b d. DeepResearch s b d \<in> set (fst (deepResearch fuel w [] qry breadth depth lrn urls)) \<longrightarrow>
            d = depth - int (length s) \<and> int (length s) \<le> depth \<and> (s \<noteq> [] \<longrightarrow> 0 < d))"
proof
  from assms(4) have "depth \<le> int fuel" and "1 \<le> fuel" by simp_all
  with assms(3) show "snd (deepResearch fuel w [] qry breadth depth lrn urls) \<noteq> None"
    by (rule settles_within_depth(1))
next
  show "\<forall>s b d. DeepResearch s b d \<in> set (fst (deepResearch fuel w [] qry breadth depth lrn urls)) \<longrightarrow>
            d = depth - int (length s) \<and> int (length s) \<le> depth \<and> (s \<noteq> [] \<longrightarrow> 0 < d)"
  proof (intro allI impI)
    fix s b d
    assume "DeepResearch s b d \<in> set (fst (deepResearch fuel w [] qry breadth depth lrn urls))"
    from calls_in_run(1) [OF this] assms(3)
    have "d = depth - int (length s - length ([]::nat list)) \<and>
          (length ([]::nat list) < length s \<longrightarrow> 0 < d)"
      by blast
    then have "d = depth - int (length s)" and "s \<noteq> [] \<Longrightarrow> 0 < d"
      by simp_all
    then show "d = depth - int (length s) \<and> int (length s) \<le> depth \<and> (s \<noteq> [] \<longrightarrow> 0 < d)"
      using assms(2) by (cases "s = []") auto
  qed
qed

theorem deepResearch_terminates_witness:
  "(1::int) \<le> 2 \<and> (0::int) \<le> 2 \<and> (2::int) \<le> 9007199254740992 \<and> nat (max 1 2) \<le> 2 \<and>
   snd (deepResearch 2 demo_world [] ''x'' 2 2 [] []) =
     Some (Inr \<lparr>learnings = [''L''], visitedUrls = [''https://a'']\<rparr>) \<and>
   snd (deepResearch 2 demo_world [] ''x'' 2 2 [] []) \<noteq> None \<and>
   DeepResearch [0] 1 1 \<in> set (fst (deepResearch 2 demo_world [] ''x'' 2 2 [] [])) \<and>
   (1::int) = 2 - int (length [0::nat]) \<and> int (length [0::nat]) \<le> 2"
proof -
  have b: "(1::int) \<le> 2" and d0: "(0::int) \<le> 2" and d1: "(2::int) \<le> 9007199254740992"
    and f: "nat (max 1 2) \<le> 2"
    by simp_all
  have ev: "DeepResearch [0] 1 1 \<in> set (fst (deepResearch 2 demo_world [] ''x'' 2 2 [] []))"
    by code_simp
  have run: "snd (deepResearch 2 demo_world [] ''x'' 2 2 [] []) =
               Some (Inr \<lparr>learnings = [''L''], visitedUrls = [''https://a'']\<rparr>)"
    by code_simp
  from deepResearch_terminates [OF b d0 d1 f, of demo_world "''x''" "[]" "[]"] ev
  have "snd (deepResearch 2 demo_world [] ''x'' 2 2 [] []) \<noteq> None \<and>
        (1::int) = 2 - int (length [0::nat]) \<and> int (length [0::nat]) \<le> 2"
    by blast
  with ev run show ?thesis by simp
qed

section \<open>Aggregation\<close>

text \<open>
  Claim C2. When a call of \<open>deepResearch\<close> returns, in particular the top-level one,
  the returned learnings and the returned visited URLs each hold no entry twice.
  Entries are compared as strings, and nothing else is dropped: the returned lists
  hold exactly the strings that occur in the results of the branches.
\<close>

theorem deepResearch_no_duplicates:
  assumes "snd (deepResearch fuel w site qry breadth depth lrn urls) = Some (Inr r)"
  shows "distinct (learnings r) \<and> distinct (visitedUrls r) \<and>
         (\<exists>results.
            promise_all (map snd (branch_runs (fuel - 1) w site qry breadth depth lrn urls))
              = Some (Inr results) \<and>
            set (learnings r) = (\<Union>x\<in>set results. set (learnings x)) \<and>
            set (visitedUrls r) = (\<Union>x\<in>set results. set (visitedUrls x)))"
proof (cases fuel)
  case 0
  with assms show ?thesis by (simp add: deepResearch.simps)
next
  case (Suc n)
  with assms have "settle (map snd (branch_runs n w site qry breadth depth lrn urls)) = Some (Inr r)"
    by (simp add: deepResearch_unfold)
  then obtain results where
    all: "promise_all (map snd (branch_runs n w site qry breadth depth lrn urls))
            = Some (Inr results)"
    and r: "r = aggregate results"
    using settle_Inr by blast
  have "distinct (learnings r)" "distinct (visitedUrls r)"
    by (simp_all add: r aggregate_def newSet_distinct)
  moreover have "set (learnings r) = (\<Union>x\<in>set results. set (learnings x))"
    and "set (visitedUrls r) = (\<Union>x\<in>set results. set (visitedUrls x))"
    by (simp_all add: r aggregate_def newSet_set)
  ultimately show ?thesis using all Suc by auto
qed

theorem deepResearch_no_duplicates_witness:
  "snd (deepResearch 1 demo_world [] ''x'' 2 1 [] []) =
     Some (Inr \<lparr>learnings = [''L''], visitedUrls = [''https://a'']\<rparr>) \<and>
   map snd (branch_runs 0 demo_world [] ''x'' 2 1 [] []) =
     [Some (Inr \<lparr>learnings = [''L''], visitedUrls = [''https://a'']\<rparr>),
      Some (Inr \<lparr>learnings = [''L''], visitedUrls = [''https://a'']\<rparr>)] \<and>
   distinct (learnings \<lparr>learnings = [''L''], visitedUrls = [''https://a'']\<rparr>) \<and>
   distinct (visitedUrls \<lparr>learnings = [''L''], visitedUrls = [''https://a'']\<rparr>)"
proof -
  have run: "snd (deepResearch 1 demo_world [] ''x'' 2 1 [] []) =
               Some (Inr \<lparr>learnings = [''L''], visitedUrls = [''https://a'']\<rparr>)"
    by code_simp
  have branches: "map snd (branch_runs 0 demo_world [] ''x'' 2 1 [] []) =
     [Some (Inr \<lparr>learnings = [''L''], visitedUrls = [''https://a'']\<rparr>),
      Some (Inr \<lparr>learnings = [''L''], visitedUrls = [''https://a'']\<rparr>)]"
    by code_simp
  from deepResearch_no_duplicates [OF run]
  have "distinct (learnings \<lparr>learnings = [''L''], visitedUrls = [''https://a'']\<rparr>) \<and>
        distinct (visitedUrls \<lparr>learnings = [''L''], visitedUrls = [''https://a'']\<rparr>)"
    by blast
  with run branches show ?thesis by blast
qed

section \<open>The last level and an empty plan\<close>

text \<open>
  Claim C3, as stated: a call with depth 0 returns at once, without planning,
  searching or digesting, and hands back the accumulated learnings and URLs unchanged.
  The function has no test of \<open>depth\<close> before it plans: in the demo world the call with
  depth 0 and nothing accumulated plans, searches and digests both queries and returns
  what it found.
\<close>

theorem depth_0_counterexample:
  "GenerateSerpQueries [] \<in> set (fst (deepResearch 1 demo_world [] ''x'' 2 0 [] [])) \<and>
   FirecrawlSearch [0] ''q1'' \<in> set (fst (deepResearch 1 demo_world [] ''x'' 2 0 [] [])) \<and>
   ProcessSerpResult [0] ''q1'' \<in> set (fst (deepResearch 1 demo_world [] ''x'' 2 0 [] [])) \<and>
   snd (deepResearch 1 demo_world [] ''x'' 2 0 [] []) =
     Some (Inr \<lparr>learnings = [''L''], visitedUrls = [''https://a'']\<rparr>) \<and>
   snd (deepResearch 1 demo_world [] ''x'' 2 0 [] []) \<noteq>
     Some (Inr \<lparr>learnings = [], visitedUrls = []\<rparr>)"
  by code_simp

text \<open>
  Claim C3, amended. A call with depth 0 (as with depth 1) is the last level, not an
  immediate return. Its log is exactly: the call itself, one call of the planner, and
  for every planned query, in turn, the search and, when the search succeeded, the
  digestion. So the planner is called once, the search provider once for every
  planned query, the digester for every search that succeeded, and \<open>deepResearch\<close> is
  not called again. The call settles, with the aggregation of its branches: the
  accumulated and the new learnings and URLs of a branch whose search succeeded, and
  what the \<open>catch\<close> block gives for one whose search failed.
\<close>

theorem depth_0_is_last_level:
  assumes "depth \<le> 1"
  shows "deepResearch (Suc fuel) w site qry breadth depth lrn urls =
           (DeepResearch site breadth depth # GenerateSerpQueries site #
              concat (map (\<lambda>(i, serpQuery). leaf_calls w (site @ [i]) serpQuery)
                          (enumerate 0 (generateSerpQueries w site qry breadth lrn))),
            settle (map (\<lambda>(i, serpQuery).
                           Some (leaf_result w (site @ [i]) serpQuery breadth lrn urls))
                        (enumerate 0 (generateSerpQueries w site qry breadth lrn)))) \<and>
         length (filter is_planner_call
                   (fst (deepResearch (Suc fuel) w site qry breadth depth lrn urls))) = 1 \<and>
         length (filter is_deepResearch_call
                   (fst (deepResearch (Suc fuel) w site qry breadth depth lrn urls))) = 1 \<and>
         (\<forall>i < length (generateSerpQueries w site qry breadth lrn).
            FirecrawlSearch (site @ [i]) (query (generateSerpQueries w site qry breadth lrn ! i))
              \<in> set (fst (deepResearch (Suc fuel) w site qry breadth depth lrn urls)) \<and>
            (\<forall>result.
               search w (site @ [i]) (query (generateSerpQueries w site qry breadth lrn ! i))
                 = Inr result \<longrightarrow>
               ProcessSerpResult (site @ [i])
                 (query (generateSerpQueries w site qry breadth lrn ! i))
                 \<in> set (fst (deepResearch (Suc fuel) w site qry breadth depth lrn urls)))) \<and>
         snd (deepResearch (Suc fuel) w site qry breadth depth lrn urls) \<noteq> None"
proof -
  let ?qs = "generateSerpQueries w site qry breadth lrn"
  let ?run = "deepResearch (Suc fuel) w site qry breadth depth lrn urls"
  have runs: "branch_runs fuel w site qry breadth depth lrn urls =
                map (\<lambda>(i, serpQuery). (leaf_calls w (site @ [i]) serpQuery,
                       Some (leaf_result w (site @ [i]) serpQuery breadth lrn urls)))
                    (enumerate 0 ?qs)"
    using runBranch_shallow [OF assms] by (simp add: branch_runs_def)
  have eq: "?run =
           (DeepResearch site breadth depth # GenerateSerpQueries site #
              concat (map (\<lambda>(i, serpQuery). leaf_calls w (site @ [i]) serpQuery)
                          (enumerate 0 ?qs)),
            settle (map (\<lambda>(i, serpQuery).
                           Some (leaf_result w (site @ [i]) serpQuery breadth lrn urls))
                        (enumerate 0 ?qs)))"
    by (simp add: deepResearch_unfold runs comp_def case_prod_unfold)
  have planner: "length (filter is_planner_call (fst ?run)) = 1"
    by (simp add: eq leaf_calls_no_planner [of w "\<lambda>i. site @ [i]"])
  have calls: "length (filter is_deepResearch_call (fst ?run)) = 1"
    by (simp add: eq leaf_calls_no_deepResearch [of w "\<lambda>i. site @ [i]"])
  have branch: "FirecrawlSearch (site @ [i]) (query (?qs ! i)) \<in> set (fst ?run) \<and>
                (\<forall>result. search w (site @ [i]) (query (?qs ! i)) = Inr result \<longrightarrow>
                   ProcessSerpResult (site @ [i]) (query (?qs ! i)) \<in> set (fst ?run))"
    if i: "i < length ?qs" for i
  proof -
    have "(i, ?qs ! i) \<in> set (enumerate 0 ?qs)"
      using i by (metis add_0 length_enumerate nth_enumerate_eq nth_mem)
    then have sub: "set (leaf_calls w (site @ [i]) (?qs ! i)) \<subseteq> set (fst ?run)"
      by (force simp: eq)
    have "FirecrawlSearch (site @ [i]) (query (?qs ! i))
            \<in> set (leaf_calls w (site @ [i]) (?qs ! i))"
      by (simp add: leaf_calls_def split: sum.splits)
    moreover have "ProcessSerpResult (site @ [i]) (query (?qs ! i))
            \<in> set (leaf_calls w (site @ [i]) (?qs ! i))"
      if "search w (site @ [i]) (query (?qs ! i)) = Inr result" for result
      using that by (simp add: leaf_calls_def)
    ultimately show ?thesis using sub by blast
  qed
  have "snd ?run \<noteq> None"
    by (simp add: eq settle_settles case_prod_unfold)
  with eq planner calls branch show ?thesis by blast
qed

theorem depth_0_is_last_level_witness:
  "(0::int) \<le> 1 \<and>
   deepResearch (Suc 0) demo_world [] ''x'' 2 0 [] [] =
     ([DeepResearch [] 2 0, GenerateSerpQueries [], FirecrawlSearch [0] ''q1'',
       ProcessSerpResult [0] ''q1'', FirecrawlSearch [1] ''q2'', ProcessSerpResult [1] ''q2''],
      Some (Inr \<lparr>learnings = [''L''], visitedUrls = [''https://a'']\<rparr>)) \<and>
   length (filter is_planner_call (fst (deepResearch (Suc 0) demo_world [] ''x'' 2 0 [] []))) = 1"
proof -
  have d: "(0::int) \<le> 1" by simp
  have run: "deepResearch (Suc 0) demo_world [] ''x'' 2 0 [] [] =
     ([DeepResearch [] 2 0, GenerateSerpQueries [], FirecrawlSearch [0] ''q1'',
       ProcessSerpResult [0] ''q1'', FirecrawlSearch [1] ''q2'', ProcessSerpResult [1] ''q2''],
      Some (Inr \<lparr>learnings = [''L''], visitedUrls = [''https://a'']\<rparr>))"
    by code_simp
  from depth_0_is_last_level [OF d, of 0 demo_world "[]" "''x''" 2 "[]" "[]"]
  have "length (filter is_planner_call
                  (fst (deepResearch (Suc 0) demo_world [] ''x'' 2 0 [] []))) = 1"
    by blast
  with run d show ?thesis by blast
qed

text \<open>
  Claim C4, as stated: whenever the planner returns no query, the call makes no search
  and ends with the learnings and URLs accumulated so far. With an empty plan there
  is no branch, and the call returns the aggregation of no results, which is empty:
  what was accumulated is not returned.
\<close>

theorem empty_plan_counterexample:
  "generateSerpQueries silent_world [] ''x'' 2 [''a''] = [] \<and>
   snd (deepResearch 1 silent_world [] ''x'' 2 1 [''a''] [''u'']) =
     Some (Inr \<lparr>learnings = [], visitedUrls = []\<rparr>) \<and>
   snd (deepResearch 1 silent_world [] ''x'' 2 1 [''a''] [''u'']) \<noteq>
     Some (Inr \<lparr>learnings = [''a''], visitedUrls = [''u'']\<rparr>)"
  by code_simp

text \<open>
  Claim C4, amended. Whenever the planner returns no query, the call makes no search
  (it does nothing after planning) and returns empty learnings and empty visited
  URLs, whatever was accumulated; at the root, where nothing is accumulated, that is
  the result \<open>{learnings: [], visitedUrls: []}\<close>.
\<close>

theorem empty_plan_returns_empty:
  assumes "generateSerpQueries w site qry breadth lrn = []"
  shows "deepResearch (Suc fuel) w site qry breadth depth lrn urls =
           ([DeepResearch site breadth depth, GenerateSerpQueries site],
            Some (Inr \<lparr>learnings = [], visitedUrls = []\<rparr>))"
  using assms
  by (simp add: deepResearch_unfold branch_runs_def settle_def aggregate_def newSet_def)

theorem empty_plan_returns_empty_witness:
  "generateSerpQueries silent_world [] ''x'' 2 [] = [] \<and>
   deepResearch (Suc 0) silent_world [] ''x'' 2 1 [] [] =
     ([DeepResearch [] 2 1, GenerateSerpQueries []],
      Some (Inr \<lparr>learnings = [], visitedUrls = []\<rparr>))"
proof -
  have plan: "generateSerpQueries silent_world [] ''x'' 2 [] = []"
    by code_simp
  from empty_plan_returns_empty [OF plan, of 0 1 "[]"] plan show ?thesis by simp
qed

section \<open>Failing branches\<close>

text \<open>
  Claim C5. A branch whose search fails with a rate limit, an invalid key, not found
  or a network error contributes the empty result; the other branches run as they
  would have, and the call settles as the aggregation of the remaining branches:
  the failed branch alone never makes the call fail.
\<close>

theorem failed_branch_contributes_nothing:
  assumes "i < length (generateSerpQueries w site qry breadth lrn)"
    and "search w (site @ [i]) (query (generateSerpQueries w site qry breadth lrn ! i)) = Inl e"
    and "classified e"
  shows "snd (branch_runs fuel w site qry breadth depth lrn urls ! i) =
           Some (Inr \<lparr>learnings = [], visitedUrls = []\<rparr>) \<and>
         snd (deepResearch (Suc fuel) w site qry breadth depth lrn urls) =
           settle (take i (map snd (branch_runs fuel w site qry breadth depth lrn urls)) @
                   drop (Suc i) (map snd (branch_runs fuel w site qry breadth depth lrn urls)))"
proof -
  let ?rs = "map snd (branch_runs fuel w site qry breadth depth lrn urls)"
  have caught: "on_branch_error e = Inr \<lparr>learnings = [], visitedUrls = []\<rparr>"
    using assms(3) by (auto simp: classified_def on_branch_error_def)
  have branch: "snd (branch_runs fuel w site qry breadth depth lrn urls ! i) =
                  Some (Inr \<lparr>learnings = [], visitedUrls = []\<rparr>)"
    using assms(1,2) caught by (simp add: nth_branch_runs runBranch_failed)
  have len: "i < length ?rs"
    using assms(1) by (simp add: length_branch_runs)
  then have "?rs ! i = Some (Inr \<lparr>learnings = [], visitedUrls = []\<rparr>)"
    using branch by simp
  with len have "?rs = take i ?rs @ Some (Inr \<lparr>learnings = [], visitedUrls = []\<rparr>) # drop (Suc i) ?rs"
    using id_take_nth_drop [of i ?rs] by simp
  then have "settle ?rs = settle (take i ?rs @ drop (Suc i) ?rs)"
    using settle_skip_empty [of "take i ?rs" "drop (Suc i) ?rs"] by simp
  then show ?thesis using branch by (simp add: deepResearch_unfold)
qed

theorem failed_branch_contributes_nothing_witness:
  "0 < length (generateSerpQueries flaky_world [] ''x'' 2 []) \<and>
   search flaky_world ([] @ [0]) (query (generateSerpQueries flaky_world [] ''x'' 2 [] ! 0)) =
     Inl rate_limited \<and>
   classified rate_limited \<and>
   snd (branch_runs 0 flaky_world [] ''x'' 2 1 [] [] ! 0) =
     Some (Inr \<lparr>learnings = [], visitedUrls = []\<rparr>) \<and>
   snd (deepResearch (Suc 0) flaky_world [] ''x'' 2 1 [] []) =
     Some (Inr \<lparr>learnings = [''L''], visitedUrls = [''https://a'']\<rparr>)"
proof -
  have i: "0 < length (generateSerpQueries flaky_world [] ''x'' 2 [])"
    by code_simp
  have failed: "search flaky_world ([] @ [0])
                  (query (generateSerpQueries flaky_world [] ''x'' 2 [] ! 0)) = Inl rate_limited"
    by (simp add: flaky_world_def)
  have kind: "classified rate_limited"
    by (simp add: classified_def rate_limited_def)
  have run: "snd (deepResearch (Suc 0) flaky_world [] ''x'' 2 1 [] []) =
               Some (Inr \<lparr>learnings = [''L''], visitedUrls = [''https://a'']\<rparr>)"
    by code_simp
  from failed_branch_contributes_nothing [OF i failed kind, of 0 1 "[]"]
  have "snd (branch_runs 0 flaky_world [] ''x'' 2 1 [] [] ! 0) =
          Some (Inr \<lparr>learnings = [], visitedUrls = []\<rparr>)"
    by blast
  with i failed kind run show ?thesis by blast
qed

section \<open>The request executor\<close>

text \<open>
  Claim C6. For a request with at least one message, the executor makes at most 5
  retries (so at most 6 attempts, all with the same upstream request); the \<open>k\<close>-th
  retry comes after a sleep of \<open>min (3000 * 2 ^ k) 15000\<close> milliseconds plus the
  jitter drawn for it, \<open>k\<close> counting from 1; every attempt that was followed by a retry
  had failed with status 429, so an error with another status is never retried; and
  the promise settles exactly as the last attempt did: with its whole response, or
  with its error, which after a 429 means that all 5 retries were used.
\<close>

theorem makeModelRequest_retry_policy:
  assumes "messages \<noteq> []"
  shows "let r = \<lparr>req_model = DEFAULT_MODEL, req_config = config,
                  req_text = content (last messages)\<rparr>;
             run = makeModelRequest upstream rnd messages config;
             n = length (slept run)
         in n \<le> 5 \<and> sent run = replicate (Suc n) r \<and>
            (\<forall>k<n. slept run ! k = min (3000 * 2 ^ (k + 1)) 15000 + rnd (k + 1) * 1000 \<and>
                   (\<exists>e. upstream k r = Inl e \<and> status e = Some 429)) \<and>
            outcome run = upstream n r \<and>
            (\<forall>e. outcome run = Inl e \<and> status e = Some 429 \<longrightarrow> n = 5)"
proof -
  define r where "r = \<lparr>req_model = DEFAULT_MODEL, req_config = config,
                       req_text = content (last messages)\<rparr>"
  define run where "run = retry_loop upstream rnd r 0"
  have eq: "makeModelRequest upstream rnd messages config = run"
    using assms by (simp add: makeModelRequest_def run_def r_def)
  have inv: "0 + length (slept run) \<le> MAX_RETRIES \<and> sent run = replicate (Suc (length (slept run))) r \<and>
       (\<forall>k<length (slept run). slept run ! k = delay (rnd (0 + k + 1)) (0 + k + 1) \<and>
              (\<exists>e. upstream (0 + k) r = Inl e \<and> status e = Some 429)) \<and>
       outcome run = upstream (0 + length (slept run)) r \<and>
       (\<forall>e. outcome run = Inl e \<and> status e = Some 429 \<longrightarrow> 0 + length (slept run) = MAX_RETRIES)"
    using retry_loop_inv [of 0 upstream rnd r] unfolding Let_def run_def by blast
  have d: "delay x (k + 1) = min (3000 * 2 ^ (k + 1)) 15000 + x * 1000" for x k
    by (simp add: delay_def INITIAL_RETRY_DELAY_def MAX_RETRY_DELAY_def)
  from inv have "0 + length (slept run) \<le> MAX_RETRIES" by blast
  then have "length (slept run) \<le> 5" by (simp add: MAX_RETRIES_def)
  moreover have "sent run = replicate (Suc (length (slept run))) r" using inv by blast
  moreover have "\<forall>k<length (slept run). slept run ! k = min (3000 * 2 ^ (k + 1)) 15000 + rnd (k + 1) * 1000 \<and>
                   (\<exists>e. upstream k r = Inl e \<and> status e = Some 429)"
  proof (intro allI impI)
    fix k assume "k < length (slept run)"
    with inv have "slept run ! k = delay (rnd (0 + k + 1)) (0 + k + 1) \<and>
              (\<exists>e. upstream (0 + k) r = Inl e \<and> status e = Some 429)" by blast
    then show "slept run ! k = min (3000 * 2 ^ (k + 1)) 15000 + rnd (k + 1) * 1000 \<and>
                   (\<exists>e. upstream k r = Inl e \<and> status e = Some 429)"
      using d [of "rnd (k + 1)" k] by simp
  qed
  moreover have "outcome run = upstream (length (slept run)) r" 
  proof -
    from inv have "outcome run = upstream (0 + length (slept run)) r" by blast
    then show ?thesis by simp
  qed
  moreover have "\<forall>e. outcome run = Inl e \<and> status e = Some 429 \<longrightarrow> length (slept run) = 5"
  proof (intro allI impI)
    fix e assume "outcome run = Inl e \<and> status e = Some 429"
    with inv have "0 + length (slept run) = MAX_RETRIES" by blast
    then show "length (slept run) = 5" by (simp add: MAX_RETRIES_def)
  qed
  ultimately show ?thesis unfolding Let_def eq r_def [symmetric] by blast
qed

theorem makeModelRequest_retry_policy_witness:
  "formatMessages ''s'' ''p'' \<noteq> [] \<and>
   length (slept (makeModelRequest throttled_then_ok (\<lambda>k. 0) (formatMessages ''s'' ''p'') o3MiniConfig)) \<le> 5 \<and>
   slept (makeModelRequest throttled_then_ok (\<lambda>k. 0) (formatMessages ''s'' ''p'') o3MiniConfig) =
     [6000, 12000, 15000, 15000] \<and>
   outcome (makeModelRequest throttled_then_ok (\<lambda>k. 0) (formatMessages ''s'' ''p'') o3MiniConfig) = Inr ''ok''"
proof -
  have ne: "formatMessages ''s'' ''p'' \<noteq> []"
    by (simp add: formatMessages_def)
  have bound: "length (slept (makeModelRequest throttled_then_ok (\<lambda>k. 0) (formatMessages ''s'' ''p'') o3MiniConfig)) \<le> 5"
    using makeModelRequest_retry_policy [OF ne, of o3MiniConfig throttled_then_ok "\<lambda>k. 0"]
    unfolding Let_def by blast
  have run: "makeModelRequest throttled_then_ok (\<lambda>k. 0) (formatMessages ''s'' ''p'') o3MiniConfig =
   \<lparr>sent = replicate 5 \<lparr>req_model = DEFAULT_MODEL, req_config = o3MiniConfig, req_text = ''p''\<rparr>,
    slept = [6000, 12000, 15000, 15000], outcome = Inr ''ok''\<rparr>"
    by (simp add: makeModelRequest_def formatMessages_def retry_loop.simps throttled_then_ok_def
      MAX_RETRIES_def delay_def INITIAL_RETRY_DELAY_def MAX_RETRY_DELAY_def numeral_eq_Suc)
  show ?thesis using ne bound by (simp add: run)
qed

text \<open>
  Claim C10. The upstream request of a model call depends only on the content of the
  last message and on the model configuration: two message lists with the same last
  content run identically (same requests, same sleeps, same outcome), every request
  sent carries that content as its text, and for the messages the callers build with
  \<open>formatMessages\<close> the system text has no influence on \<open>o3MiniModel\<close>.
\<close>

theorem only_last_message_is_sent:
  assumes "msgs1 \<noteq> []" and "msgs2 \<noteq> []"
    and "content (last msgs1) = content (last msgs2)"
  shows "makeModelRequest upstream rnd msgs1 config = makeModelRequest upstream rnd msgs2 config \<and>
         (\<forall>r \<in> set (sent (makeModelRequest upstream rnd msgs1 config)).
            r = \<lparr>req_model = DEFAULT_MODEL, req_config = config,
                 req_text = content (last msgs1)\<rparr>) \<and>
         o3MiniModel upstream rnd (formatMessages system1 prompt) =
           o3MiniModel upstream rnd (formatMessages system2 prompt)"
proof (intro conjI)
  show "makeModelRequest upstream rnd msgs1 config = makeModelRequest upstream rnd msgs2 config"
    using assms by (simp add: makeModelRequest_def)
next
  let ?r = "\<lparr>req_model = DEFAULT_MODEL, req_config = config, req_text = content (last msgs1)\<rparr>"
  have "sent (retry_loop upstream rnd ?r 0) =
          replicate (Suc (length (slept (retry_loop upstream rnd ?r 0)))) ?r"
    using retry_loop_inv [of 0 upstream rnd ?r] unfolding Let_def by blast
  then have "set (sent (retry_loop upstream rnd ?r 0)) \<subseteq> {?r}"
    by (metis set_replicate_conv_if subset_refl empty_subsetI)
  then show "\<forall>r \<in> set (sent (makeModelRequest upstream rnd msgs1 config)). r = ?r"
    using assms(1) by (auto simp: makeModelRequest_def)
next
  show "o3MiniModel upstream rnd (formatMessages system1 prompt) =
          o3MiniModel upstream rnd (formatMessages system2 prompt)"
    by (simp add: o3MiniModel_def makeModelRequest_def formatMessages_def)
qed

theorem only_last_message_is_sent_witness:
  "formatMessages ''be brief'' ''p'' \<noteq> [] \<and> formatMessages ''be thorough'' ''p'' \<noteq> [] \<and>
   content (last (formatMessages ''be brief'' ''p'')) =
     content (last (formatMessages ''be thorough'' ''p'')) \<and>
   makeModelRequest throttled_then_ok (\<lambda>k. 0) (formatMessages ''be brief'' ''p'') o3MiniConfig =
     makeModelRequest throttled_then_ok (\<lambda>k. 0) (formatMessages ''be thorough'' ''p'') o3MiniConfig"
proof -
  have a: "formatMessages ''be brief'' ''p'' \<noteq> []"
    and b: "formatMessages ''be thorough'' ''p'' \<noteq> []"
    and c: "content (last (formatMessages ''be brief'' ''p'')) =
              content (last (formatMessages ''be thorough'' ''p''))"
    by (simp_all add: formatMessages_def)
  from only_last_message_is_sent [OF a b c, of throttled_then_ok "\<lambda>k. 0" o3MiniConfig] a b c
  show ?thesis by blast
qed

section \<open>The prompt trimmer\<close>

text \<open>
  Claim C7. \<open>trimPrompt\<close> is idempotent: for every text \<open>x\<close> and every bound \<open>N\<close>,
  trimming the result of \<open>trimPrompt x N\<close> again with \<open>N\<close> gives that same result.
  The token count and the splitter are parameters. Whatever they are, every result of
  \<open>trimPrompt\<close> is returned unchanged by a second call (second conjunct); and the first
  call does return when the splitter's first chunk is never longer than the text it
  cut (first conjunct).
\<close>

theorem trimPrompt_idempotent:
  "(first_chunk_no_longer splitText \<longrightarrow>
      (\<exists>r. trimPrompt encode splitText x N = Some r)) \<and>
   (\<forall>r. trimPrompt encode splitText x N = Some r \<longrightarrow>
      trimPrompt encode splitText r N = Some r)"
  using trimPrompt_returns [of splitText encode x N] trimPrompt_fixed [of encode splitText x N]
  by blast

theorem trimPrompt_idempotent_witness:
  "first_chunk_no_longer hard_split \<and>
   trimPrompt length hard_split (replicate 9000 CHR ''a'') 8000 = Some (replicate 6000 CHR ''a'') \<and>
   trimPrompt length hard_split (replicate 6000 CHR ''a'') 8000 = Some (replicate 6000 CHR ''a'')"
proof -
  have first: "trimPrompt length hard_split (replicate 9000 CHR ''a'') 8000 =
                 trimPrompt length hard_split (replicate 6000 CHR ''a'') 8000"
    by (simp add: trimPrompt.simps [of length hard_split "replicate 9000 CHR ''a''"]
          Let_def MinChunkSize_def hard_split_def)
  have "trimPrompt length hard_split (replicate 6000 CHR ''a'') 8000 =
          Some (replicate 6000 CHR ''a'')"
    by (simp add: trimPrompt.simps [of length hard_split "replicate 6000 CHR ''a''"])
  with first have run: "trimPrompt length hard_split (replicate 9000 CHR ''a'') 8000 =
                          Some (replicate 6000 CHR ''a'')"
    by simp
  from trimPrompt_idempotent [of hard_split length "replicate 9000 CHR ''a''" 8000] run
  have "trimPrompt length hard_split (replicate 6000 CHR ''a'') 8000 =
          Some (replicate 6000 CHR ''a'')"
    by blast
  with run hard_split_ok show ?thesis by blast
qed

section \<open>Breadth decay\<close>

text \<open>
  Claim C8. For every breadth of at least 1, also for breadth 1, the decayed breadth
  \<open>ceil(breadth / 2)\<close> is at least 1; so every call of \<open>deepResearch\<close> in a run that
  starts with such a breadth is made with a breadth of at least 1, however many levels
  of the run are followed.
\<close>

theorem newBreadth_at_least_1:
  assumes "1 \<le> breadth"
  shows "1 \<le> newBreadth breadth \<and>
         (\<forall>s b d. DeepResearch s b d \<in> set (fst (deepResearch fuel w site qry breadth depth lrn urls))
            \<longrightarrow> 1 \<le> b)"
proof
  show "1 \<le> newBreadth breadth"
    using assms unfolding newBreadth_def by linarith
next
  show "\<forall>s b d. DeepResearch s b d \<in> set (fst (deepResearch fuel w site qry breadth depth lrn urls))
            \<longrightarrow> 1 \<le> b"
    using calls_in_run(1) [of _ _ _ fuel w site qry breadth depth lrn urls] assms by blast
qed

theorem newBreadth_at_least_1_witness:
  "(1::int) \<le> 1 \<and> 1 \<le> newBreadth 1 \<and> newBreadth 1 = 1 \<and> newBreadth 3 = 2"
proof -
  have b: "(1::int) \<le> 1" by simp
  from newBreadth_at_least_1 [OF b] have "1 \<le> newBreadth 1" by blast
  moreover have "newBreadth 1 = 1" "newBreadth 3 = 2"
    unfolding newBreadth_def by (rule ceiling_unique; simp)+
  ultimately show ?thesis by simp
qed

section \<open>The report\<close>

text \<open>
  Claim C9. When the reply of the model parses to an object whose \<open>reportMarkdown\<close> is
  \<open>R\<close>, \<open>writeFinalReport\<close> returns \<open>R\<close>, then the heading of the sources section, then
  one line \<open>- url\<close> for every visited URL supplied, in the order supplied: read back
  line by line, the section lists exactly the supplied URLs (for URLs that hold no
  line break themselves).
\<close>

theorem writeFinalReport_lists_sources:
  assumes "model_reply w []
             (ReportPrompt prompt
                (trim_prompt w (join ''\<newline>'' (map (\<lambda>learning. ''- '' @ learning) lrn)) 150000))
           = Inr reply"
    and "reply \<noteq> []"
    and "parse_report w reply = Some (Some R)"
  shows "writeFinalReport w prompt lrn urls =
           R @ ''\<newline>\<newline>## Sources\<newline>\<newline>'' @ join ''\<newline>'' (map (\<lambda>u. ''- '' @ u) urls) \<and>
         (urls \<noteq> [] \<and> (\<forall>u \<in> set urls. CHR ''\<newline>'' \<notin> set u) \<longrightarrow>
            map (drop 2)
              (js_split CHR ''\<newline>''
                 (drop (length (R @ ''\<newline>\<newline>## Sources\<newline>\<newline>''))
                    (writeFinalReport w prompt lrn urls))) = urls)"
proof -
  have report: "writeFinalReport w prompt lrn urls =
           R @ ''\<newline>\<newline>## Sources\<newline>\<newline>'' @ join ''\<newline>'' (map (\<lambda>u. ''- '' @ u) urls)"
    using assms by (simp add: writeFinalReport_def sources_section_def)
  have "map (drop 2) (js_split CHR ''\<newline>'' (join ''\<newline>'' (map (\<lambda>u. ''- '' @ u) urls))) = urls"
    if "urls \<noteq> []" and "\<forall>u \<in> set urls. CHR ''\<newline>'' \<notin> set u"
  proof -
    have "js_split CHR ''\<newline>'' (join [CHR ''\<newline>''] (map (\<lambda>u. ''- '' @ u) urls)) =
            map (\<lambda>u. ''- '' @ u) urls"
      using that by (intro js_split_join) auto
    then show ?thesis by (simp add: comp_def)
  qed
  then show ?thesis by (simp add: report)
qed

theorem writeFinalReport_lists_sources_witness:
  "model_reply demo_world []
     (ReportPrompt ''X''
        (trim_prompt demo_world
           (join ''\<newline>'' (map (\<lambda>learning. ''- '' @ learning) [''L1'', ''L2''])) 150000)) = Inr ''r'' \<and>
   ''r'' \<noteq> [] \<and> parse_report demo_world ''r'' = Some (Some ''# R'') \<and>
   writeFinalReport demo_world ''X'' [''L1'', ''L2''] [''u1'', ''u2''] =
     ''# R\<newline>\<newline>## Sources\<newline>\<newline>- u1\<newline>- u2''"
proof -
  have a: "model_reply demo_world []
     (ReportPrompt ''X''
        (trim_prompt demo_world
           (join ''\<newline>'' (map (\<lambda>learning. ''- '' @ learning) [''L1'', ''L2''])) 150000)) = Inr ''r''"
    and b: "''r'' \<noteq> []" and c: "parse_report demo_world ''r'' = Some (Some ''# R'')"
    by (simp_all add: demo_world_def)
  from writeFinalReport_lists_sources [OF a b c, of "[''u1'', ''u2'']"]
  have "writeFinalReport demo_world ''X'' [''L1'', ''L2''] [''u1'', ''u2''] =
          ''# R'' @ ''\<newline>\<newline>## Sources\<newline>\<newline>'' @ join ''\<newline>'' (map (\<lambda>u. ''- '' @ u) [''u1'', ''u2''])"
    by blast
  then have "writeFinalReport demo_world ''X'' [''L1'', ''L2''] [''u1'', ''u2''] =
               ''# R\<newline>\<newline>## Sources\<newline>\<newline>- u1\<newline>- u2''"
    by simp
  with a b c show ?thesis by blast
qed

end
